theory Spec2Isabelle
  imports Main "HOL-Library.Word" "HOL-Library.AList"
begin

section \<open>Primitive types\<close>

text \<open>
  \<^verbatim>\<open>common.Address\<close> is a 20-byte array and \<^verbatim>\<open>common.Hash\<close> a 32-byte array; both are
  modelled as words of that width, so that the byte-wise (big-endian) order of two addresses
  is the unsigned order of the words. \<^verbatim>\<open>Hex()\<close> is injective on such arrays, so a column
  or a map keyed by the hex text is keyed by the word. \<^verbatim>\<open>*big.Int\<close> is \<open>int\<close>.
\<close>

type_synonym address = "160 word"
type_synonym hash = "256 word"
type_synonym uint64 = "64 word"
type_synonym byte = "8 word"

section \<open>Package witness: the recorder (recorder.go)\<close>

subsection \<open>Data\<close>

text \<open>
  Modelled from the spec: the type \<^verbatim>\<open>TransferStatus\<close> and its constants
  \<^verbatim>\<open>TransferNew\<close>, \<^verbatim>\<open>SubmissionConfirmed\<close> and \<^verbatim>\<open>TransferSettled\<close> are declared in a
  file of the package that is not among the sources. The spec lists the five statuses
  new, submitted, confirmed, settled and failed; the three constants the recorder uses are
  the statuses their names say.
\<close>

datatype TransferStatus = St_new | St_submitted | St_confirmed | St_settled | St_failed

definition TransferNew :: TransferStatus where
  "TransferNew = St_new"

definition SubmissionConfirmed :: TransferStatus where
  "SubmissionConfirmed = St_confirmed"

definition TransferSettled :: TransferStatus where
  "TransferSettled = St_settled"

text \<open>
  The struct \<^verbatim>\<open>Transfer\<close> of the package, with the fields the recorder reads
  (\<^verbatim>\<open>id\<close> is written \<open>tid\<close>).
\<close>

record Transfer =
  cashier :: address
  token :: address
  index :: uint64
  sender :: address
  recipient :: address
  amount :: int
  blockHeight :: uint64
  txHash :: hash
  tid :: hash

text \<open>
  A row of the transfer table created by \<^verbatim>\<open>Start\<close>. \<^verbatim>\<open>status\<close> defaults to
  \<^verbatim>\<open>TransferNew\<close> and \<^verbatim>\<open>id\<close> is nullable. The two \<^verbatim>\<open>bigint\<close> columns hold the 64 bits
  they were given; the table reads them as signed. The timestamps are left out: no
  operation modelled here reads them. The table is the list of its rows in insertion order;
  its primary key is \<open>(cashier, token, tidx)\<close>.
\<close>

record row =
  r_cashier :: address
  r_token :: address
  r_tidx :: uint64
  r_sender :: address
  r_recipient :: address
  r_amount :: int
  r_status :: TransferStatus
  r_id :: "hash option"
  r_blockHeight :: uint64
  r_txHash :: hash

type_synonym table = "row list"

type_synonym pkey = "address \<times> address \<times> uint64"

definition pk :: "row \<Rightarrow> pkey" where
  "pk r = (r_cashier r, r_token r, r_tidx r)"

definition key_of :: "Transfer \<Rightarrow> pkey" where
  "key_of tx = (cashier tx, token tx, index tx)"

definition pk_unique :: "table \<Rightarrow> bool" where
  "pk_unique tbl = distinct (map pk tbl)"

text \<open>
  The errors the recorder returns, what a Go call does (it panics, returns an error or
  returns), the lines it logs, and the ways a statement can fail in the database driver:
  \<^verbatim>\<open>Exec\<close> itself, or \<^verbatim>\<open>RowsAffected\<close> after the statement ran.
\<close>

datatype rec_error =
  DbError
  | AmountNotPositive
  | RowsNotAsExpected nat
  | IdOverflow

datatype ('e, 'a) outcome = Panics 'e | Fails 'e | Returns 'a

datatype log_line =
  LogOverflow
  | LogDuplicate address address uint64
  | LogMarkConfirmed hash
  | LogMarkSettled hash

datatype db_fault = NoFault | ExecFails | RowsAffectedFails

subsection \<open>Statements\<close>

definition new_row :: "Transfer \<Rightarrow> row" where
  "new_row tx = \<lparr> r_cashier = cashier tx, r_token = token tx, r_tidx = index tx,
     r_sender = sender tx, r_recipient = recipient tx, r_amount = amount tx,
     r_status = TransferNew, r_id = None, r_blockHeight = blockHeight tx,
     r_txHash = txHash tx \<rparr>"

text \<open>\<^verbatim>\<open>INSERT IGNORE\<close>: a row whose primary key is taken is dropped; the count of rows
  affected is returned with the table.\<close>

definition insert_ignore :: "row \<Rightarrow> table \<Rightarrow> table \<times> nat" where
  "insert_ignore r tbl =
     (if pk r \<in> set (map pk tbl) then (tbl, 0) else (tbl @ [r], 1))"

text \<open>\<^verbatim>\<open>UPDATE ... SET ... WHERE ...\<close>: the rows affected are the rows the statement changed.\<close>

definition update_where :: "(row \<Rightarrow> bool) \<Rightarrow> (row \<Rightarrow> row) \<Rightarrow> table \<Rightarrow> table \<times> nat" where
  "update_where p u tbl =
     (map (\<lambda>r. if p r then u r else r) tbl, length (filter (\<lambda>r. p r \<and> u r \<noteq> r) tbl))"

text \<open>\<^verbatim>\<open>SELECT MAX(col)\<close> into a \<^verbatim>\<open>sql.NullInt64\<close>: not valid on no rows, else the
  largest value of the signed column.\<close>

definition select_max :: "uint64 list \<Rightarrow> int option" where
  "select_max hs = (case hs of [] \<Rightarrow> None | h # t \<Rightarrow> Some (fold max (map sint t) (sint h)))"

subsection \<open>Operations\<close>

definition MaxInt64 :: int where
  "MaxInt64 = 2 ^ 63 - 1"

definition validateID :: "uint64 \<Rightarrow> (rec_error, unit) outcome \<times> log_line list" where
  "validateID i =
     (if i = word_of_int (MaxInt64 - 1) then (Panics IdOverflow, [LogOverflow])
      else (Returns (), []))"

definition validateResult :: "db_fault \<Rightarrow> nat \<Rightarrow> (rec_error, unit) outcome" where
  "validateResult f affected =
     (if f = RowsAffectedFails then Fails DbError
      else if affected \<noteq> 1 then Fails (RowsNotAsExpected affected)
      else Returns ())"

definition AddTransfer :: "db_fault \<Rightarrow> Transfer \<Rightarrow> table \<Rightarrow> (rec_error, unit) outcome \<times> table \<times> log_line list" where
  "AddTransfer f tx tbl =
     (case validateID (index tx) of
        (Panics e, lg) \<Rightarrow> (Panics e, tbl, lg)
      | (Fails e, lg) \<Rightarrow> (Fails e, tbl, lg)
      | (Returns _, lg) \<Rightarrow>
          if sgn (amount tx) \<noteq> 1 then (Fails AmountNotPositive, tbl, lg)
          else if f = ExecFails then (Fails DbError, tbl, lg)
          else
            (case insert_ignore (new_row tx) tbl of
               (tbl', affected) \<Rightarrow>
                 if f = RowsAffectedFails then (Fails DbError, tbl', lg)
                 else if affected = 0
                   then (Returns (), tbl', lg @ [LogDuplicate (cashier tx) (token tx) (index tx)])
                 else (Returns (), tbl', lg)))"

definition SettleTransfer :: "db_fault \<Rightarrow> Transfer \<Rightarrow> table \<Rightarrow> (rec_error, unit) outcome \<times> table \<times> log_line list" where
  "SettleTransfer f tx tbl =
     (if f = ExecFails then (Fails DbError, tbl, [LogMarkSettled (tid tx)])
      else
        (case update_where (\<lambda>r. pk r = key_of tx \<and> r_status r = SubmissionConfirmed)
                (\<lambda>r. r\<lparr>r_status := TransferSettled\<rparr>) tbl of
           (tbl', affected) \<Rightarrow> (validateResult f affected, tbl', [LogMarkSettled (tid tx)])))"

definition ConfirmTransfer :: "db_fault \<Rightarrow> Transfer \<Rightarrow> table \<Rightarrow> (rec_error, unit) outcome \<times> table \<times> log_line list" where
  "ConfirmTransfer f tx tbl =
     (if f = ExecFails then (Fails DbError, tbl, [LogMarkConfirmed (tid tx)])
      else
        (case update_where (\<lambda>r. pk r = key_of tx \<and> r_status r = TransferNew)
                (\<lambda>r. r\<lparr>r_status := SubmissionConfirmed, r_id := Some (tid tx)\<rparr>) tbl of
           (tbl', affected) \<Rightarrow> (validateResult f affected, tbl', [LogMarkConfirmed (tid tx)])))"

text \<open>\<^verbatim>\<open>TipHeight\<close>: the first argument says whether \<^verbatim>\<open>row.Scan\<close> fails. The result is
  the pair the Go function returns; \<open>None\<close> is the nil error.\<close>

definition TipHeight :: "bool \<Rightarrow> table \<Rightarrow> uint64 \<times> rec_error option" where
  "TipHeight scan_fails tbl =
     (if scan_fails then (0, None)
      else
        (case select_max (map r_blockHeight tbl) of
           Some h \<Rightarrow> (word_of_int h, None)
         | None \<Rightarrow> (0, None)))"


text \<open>
  The calls of the recorder that write the table, each with the state of the database it
  meets, and a run of such calls. \<^verbatim>\<open>Start\<close> creates the table empty, so the tables the
  recorder works on are the tables a run leaves when started on the empty one.
\<close>

datatype recorder_call =
  CallAddTransfer db_fault Transfer
  | CallConfirmTransfer db_fault Transfer
  | CallSettleTransfer db_fault Transfer

fun apply_call :: "recorder_call \<Rightarrow> table \<Rightarrow> table" where
  "apply_call (CallAddTransfer f tx) tbl = fst (snd (AddTransfer f tx tbl))"
| "apply_call (CallConfirmTransfer f tx) tbl = fst (snd (ConfirmTransfer f tx tbl))"
| "apply_call (CallSettleTransfer f tx) tbl = fst (snd (SettleTransfer f tx tbl))"

fun run :: "recorder_call list \<Rightarrow> table \<Rightarrow> table" where
  "run [] tbl = tbl"
| "run (c # cs) tbl = run cs (apply_call c tbl)"

section \<open>Package relayer: the validator driver on IoTeX (transfervalidatoroniotex.go)\<close>

subsection \<open>Data\<close>

text \<open>
  Go errors of the driver. \<open>lib_error\<close> is an error that comes from a library outside the
  sources (the chain client, the ABI decoder, the address package): a gRPC status, whose
  code is never \<^verbatim>\<open>OK\<close>, or any other error. \<^verbatim>\<open>status.Code\<close> gives \<^verbatim>\<open>OK\<close> to the nil
  error alone and \<^verbatim>\<open>Unknown\<close> (code 2) to an error that is no status. \<open>Noncritical\<close> is
  \<^verbatim>\<open>errNoncritical\<close> wrapped with a message, which quotes the error that caused it where
  there is one. \<open>SliceBounds\<close> and \<open>NilDereference\<close> are the run-time errors of a panic.
\<close>

datatype err_code = ErrNotFound | ErrOther nat

datatype lib_error = StatusError err_code | OtherError nat

datatype codes = OK | NotFound | Code nat

datatype error =
  External lib_error
  | InvalidType
  | SliceBounds
  | NilDereference
  | errInsufficientWitnesses
  | Noncritical "error option"

fun status_Code :: "lib_error option \<Rightarrow> codes" where
  "status_Code None = OK"
| "status_Code (Some (StatusError ErrNotFound)) = NotFound"
| "status_Code (Some (StatusError (ErrOther n))) = Code n"
| "status_Code (Some (OtherError n)) = Code 2"

datatype StatusOnChainType =
  StatusOnChainUnknown
  | StatusOnChainNotConfirmed
  | StatusOnChainNeedSpeedUp
  | StatusOnChainSettled
  | StatusOnChainRejected

text \<open>
  The structs \<^verbatim>\<open>Transfer\<close> and \<^verbatim>\<open>Witness\<close> of package relayer, with the fields the
  driver reads.
\<close>

record relayer_Transfer =
  t_cashier :: address
  t_token :: address
  t_index :: uint64
  t_sender :: address
  t_recipient :: address
  t_amount :: int
  t_id :: hash
  t_nonce :: uint64

record Witness =
  addr :: address
  signature :: "byte list"

text \<open>
  The driver. \<^verbatim>\<open>witnesses\<close> is a \<^verbatim>\<open>map[string]bool\<close> keyed by the hex text of an
  address: an association list whose keys are distinct, updated with \<open>AList.update\<close>; the
  nil map the constructor leaves is the empty list. The clients, the addresses and the
  key are the environment below; the lock serialises the calls and is not modelled.
\<close>

record transferValidatorOnIoTeX =
  gasLimit :: uint64
  gasPrice :: int
  witnesses :: "(address \<times> bool) list"

text \<open>
  The destination chain, as the answers it gives to one call of the driver. A contract
  read goes through three steps that can each fail: the call, the decoding of the reply
  and the type assertion on the decoded value. \<^verbatim>\<open>address.FromBytes\<close> belongs to a library
  outside the sources and is a parameter: it returns an error or none.
\<close>

datatype count_reply =
  CountCallFails lib_error
  | CountUnmarshalFails lib_error
  | CountNotBigInt
  | Count int

datatype items_reply =
  ItemsCallFails lib_error
  | ItemsUnpackFails lib_error
  | ItemsNotStruct
  | ActiveItems int "address list"

datatype settles_reply =
  SettlesCallFails lib_error
  | SettlesUnpackFails lib_error
  | SettlesNotBigInt
  | SettleHeight int

record AccountMeta =
  Balance :: string
  Nonce :: uint64

record GetReceiptByActionRequest =
  ActionHash :: string

type_synonym receipt = nat

record submit_call =
  arg_cashier :: address
  arg_token :: address
  arg_index :: int
  arg_sender :: address
  arg_recipient :: address
  arg_amount :: int
  arg_signatures :: "byte list"
  call_gasPrice :: int
  call_gasLimit :: uint64
  call_nonce :: uint64

record chain =
  read_count :: count_reply
  read_getActiveItems :: "int \<Rightarrow> nat \<Rightarrow> items_reply"
  read_settles :: "hash \<Rightarrow> settles_reply"
  address_FromBytes :: "address \<Rightarrow> lib_error option"
  api_GetReceiptByAction :: "GetReceiptByActionRequest \<Rightarrow> receipt option \<times> lib_error option"
  api_GetAccount :: "lib_error + AccountMeta option"
  execute_submit :: "submit_call \<Rightarrow> lib_error + hash"

text \<open>What the driver does to the outside: an operator alert, a transaction sent to the
  validator contract.\<close>

datatype effect = Alert int | ExecuteCall submit_call

subsection \<open>Library functions\<close>

text \<open>\<^verbatim>\<open>(*big.Int).Int64\<close> keeps the low 64 bits, read as signed.\<close>

definition Int64 :: "int \<Rightarrow> int" where
  "Int64 x = sint (word_of_int x :: 64 word)"

text \<open>\<^verbatim>\<open>(*big.Int).SetString(s, 10)\<close>: an optional sign, then one or more decimal
  digits, and nothing else.\<close>

definition digit_of :: "char \<Rightarrow> nat option" where
  "digit_of c =
     (let n = (of_char c :: nat) in if 48 \<le> n \<and> n \<le> 57 then Some (n - 48) else None)"

fun digits :: "string \<Rightarrow> nat \<Rightarrow> nat option" where
  "digits [] acc = Some acc"
| "digits (c # cs) acc =
     (case digit_of c of None \<Rightarrow> None | Some d \<Rightarrow> digits cs (10 * acc + d))"

definition SetString10 :: "string \<Rightarrow> int option" where
  "SetString10 s =
     (case s of
        [] \<Rightarrow> None
      | c # cs \<Rightarrow>
          if c = CHR ''-'' then (if cs = [] then None else map_option (\<lambda>n. - int n) (digits cs 0))
          else if c = CHR ''+'' then (if cs = [] then None else map_option int (digits cs 0))
          else map_option int (digits (c # cs) 0))"

subsection \<open>refresh\<close>

text \<open>
  The paging loop of \<^verbatim>\<open>refresh\<close>, from \<open>offset\<close> on, with the witnesses read so far.
  \<^verbatim>\<open>ai.Items[:n]\<close> panics when \<open>n\<close> is negative or beyond the slice (a decoded slice has
  no spare capacity).
\<close>

function collect_pages :: "chain \<Rightarrow> int \<Rightarrow> int \<Rightarrow> address list \<Rightarrow> (error, address list) outcome" where
  "collect_pages ch cnt offset ws =
     (if offset < cnt then
        (case read_getActiveItems ch offset 10 of
           ItemsCallFails e \<Rightarrow> Fails (External e)
         | ItemsUnpackFails e \<Rightarrow> Fails (External e)
         | ItemsNotStruct \<Rightarrow> Fails InvalidType
         | ActiveItems n items \<Rightarrow>
             if Int64 n < 0 \<or> int (length items) < Int64 n then Panics SliceBounds
             else collect_pages ch cnt (offset + 10) (ws @ take (nat (Int64 n)) items))
      else Returns ws)"
  by pat_completeness auto
termination
  by (relation "measure (\<lambda>(ch, cnt, offset, ws). nat (cnt - offset))") auto

text \<open>The second loop of \<^verbatim>\<open>refresh\<close>: it fills the new map, one address at a time.\<close>

fun activeWitnesses :: "chain \<Rightarrow> address list \<Rightarrow> (address \<times> bool) list \<Rightarrow> error + (address \<times> bool) list" where
  "activeWitnesses ch [] m = Inr m"
| "activeWitnesses ch (w # ws) m =
     (case address_FromBytes ch w of
        Some e \<Rightarrow> Inl (External e)
      | None \<Rightarrow> activeWitnesses ch ws (AList.update w True m))"

definition refresh :: "chain \<Rightarrow> transferValidatorOnIoTeX \<Rightarrow> (error, unit) outcome \<times> transferValidatorOnIoTeX" where
  "refresh ch tv =
     (case read_count ch of
        CountCallFails e \<Rightarrow> (Fails (External e), tv)
      | CountUnmarshalFails e \<Rightarrow> (Fails (External e), tv)
      | CountNotBigInt \<Rightarrow> (Fails InvalidType, tv)
      | Count cnt \<Rightarrow>
          (case collect_pages ch cnt 0 [] of
             Panics e \<Rightarrow> (Panics e, tv)
           | Fails e \<Rightarrow> (Fails e, tv)
           | Returns ws \<Rightarrow>
               (case activeWitnesses ch ws [] of
                  Inl e \<Rightarrow> (Fails e, tv)
                | Inr m \<Rightarrow> (Returns (), tv\<lparr>witnesses := m\<rparr>))))"

definition isActiveWitness :: "transferValidatorOnIoTeX \<Rightarrow> address \<Rightarrow> bool" where
  "isActiveWitness tv witness =
     (case map_of (witnesses tv) witness of None \<Rightarrow> False | Some val \<Rightarrow> val)"

subsection \<open>Check\<close>

definition empty_request :: GetReceiptByActionRequest where
  "empty_request = \<lparr> ActionHash = [] \<rparr>"

definition Check :: "chain \<Rightarrow> relayer_Transfer \<Rightarrow> StatusOnChainType \<times> error option" where
  "Check ch transfer =
     (case read_settles ch (t_id transfer) of
        SettlesCallFails e \<Rightarrow> (StatusOnChainUnknown, Some (External e))
      | SettlesUnpackFails e \<Rightarrow> (StatusOnChainUnknown, Some (External e))
      | SettlesNotBigInt \<Rightarrow> (StatusOnChainUnknown, Some InvalidType)
      | SettleHeight settleHeight \<Rightarrow>
          if 0 < settleHeight then (StatusOnChainSettled, None)
          else
            (case api_GetReceiptByAction ch empty_request of
               (response, err) \<Rightarrow>
                 (case status_Code err of
                    NotFound \<Rightarrow> (StatusOnChainNeedSpeedUp, None)
                  | OK \<Rightarrow>
                      if response \<noteq> None then (StatusOnChainRejected, None)
                      else (StatusOnChainNotConfirmed, None)
                  | Code n \<Rightarrow> (StatusOnChainUnknown, map_option External err))))"

subsection \<open>submit, Submit and SpeedUp\<close>

text \<open>
  The loop of \<^verbatim>\<open>submit\<close> over the witnesses it was given, in their order, with the
  signatures appended and the active witnesses counted so far. The count is a Go
  \<^verbatim>\<open>int\<close>; three times the length of a slice of pointers that fits a 64-bit address
  space is below \<open>2^63\<close>, so it is a natural number here.
\<close>

fun gather :: "chain \<Rightarrow> transferValidatorOnIoTeX \<Rightarrow> Witness list \<Rightarrow> byte list \<Rightarrow> nat \<Rightarrow> error + (byte list \<times> nat)" where
  "gather ch tv [] signatures numOfValidSignatures = Inr (signatures, numOfValidSignatures)"
| "gather ch tv (witness # rest) signatures numOfValidSignatures =
     (if \<not> isActiveWitness tv (addr witness) then
        (case address_FromBytes ch (addr witness) of
           Some e \<Rightarrow> Inl (Noncritical (Some (External e)))
         | None \<Rightarrow> gather ch tv rest signatures numOfValidSignatures)
      else gather ch tv rest (signatures @ signature witness) (numOfValidSignatures + 1))"

definition make_call :: "transferValidatorOnIoTeX \<Rightarrow> relayer_Transfer \<Rightarrow> byte list \<Rightarrow> uint64 \<Rightarrow> submit_call" where
  "make_call tv transfer signatures nonce =
     \<lparr> arg_cashier = t_cashier transfer, arg_token = t_token transfer,
       arg_index = uint (t_index transfer), arg_sender = t_sender transfer,
       arg_recipient = t_recipient transfer, arg_amount = t_amount transfer,
       arg_signatures = signatures, call_gasPrice = gasPrice tv,
       call_gasLimit = gasLimit tv, call_nonce = nonce \<rparr>"

type_synonym submit_result =
  "(error, hash \<times> uint64 \<times> int) outcome \<times> transferValidatorOnIoTeX \<times> effect list"

definition submit :: "chain \<Rightarrow> transferValidatorOnIoTeX \<Rightarrow> relayer_Transfer \<Rightarrow> Witness list \<Rightarrow> bool \<Rightarrow> submit_result" where
  "submit ch tv0 transfer wits resubmit =
     (case refresh ch tv0 of
        (Panics e, tv) \<Rightarrow> (Panics e, tv, [])
      | (Fails e, tv) \<Rightarrow> (Fails (Noncritical (Some e)), tv, [])
      | (Returns _, tv) \<Rightarrow>
          (case gather ch tv wits [] 0 of
             Inl e \<Rightarrow> (Fails e, tv, [])
           | Inr (signatures, numOfValidSignatures) \<Rightarrow>
               if numOfValidSignatures * 3 \<le> length (witnesses tv) * 2
               then (Fails errInsufficientWitnesses, tv, [])
               else
                 (case api_GetAccount ch of
                    Inl e \<Rightarrow> (Fails (Noncritical (Some (External e))), tv, [])
                  | Inr None \<Rightarrow> (Panics NilDereference, tv, [])
                  | Inr (Some accountMeta) \<Rightarrow>
                      (case SetString10 (Balance accountMeta) of
                         None \<Rightarrow> (Fails (Noncritical None), tv, [])
                       | Some balance \<Rightarrow>
                           (let alerts =
                                  (if balance < gasPrice tv * uint (gasLimit tv)
                                   then [Alert balance] else []);
                                nonce =
                                  (if resubmit then t_nonce transfer
                                   else Nonce accountMeta + 1);
                                call = make_call tv transfer signatures nonce
                            in
                              (case execute_submit ch call of
                                 Inl e \<Rightarrow> (Fails (External e), tv, alerts @ [ExecuteCall call])
                               | Inr actionHash \<Rightarrow>
                                   (Returns (actionHash, nonce, gasPrice tv), tv,
                                    alerts @ [ExecuteCall call])))))))"

definition Submit :: "chain \<Rightarrow> transferValidatorOnIoTeX \<Rightarrow> relayer_Transfer \<Rightarrow> Witness list \<Rightarrow> submit_result" where
  "Submit ch tv transfer wits = submit ch tv transfer wits False"

definition SpeedUp :: "chain \<Rightarrow> transferValidatorOnIoTeX \<Rightarrow> relayer_Transfer \<Rightarrow> Witness list \<Rightarrow> submit_result" where
  "SpeedUp ch tv transfer wits = submit ch tv transfer wits True"

text \<open>The driver \<^verbatim>\<open>NewTransferValidatorOnIoTeX\<close> builds when its reads succeed.\<close>

definition NewTransferValidatorOnIoTeX :: transferValidatorOnIoTeX where
  "NewTransferValidatorOnIoTeX = \<lparr> gasLimit = 2000000, gasPrice = 1000000000000, witnesses = [] \<rparr>"

section \<open>The spec's readings, and example data\<close>

text \<open>
  The spec's words for the quorum and for the aggregated payload, to compare with what
  \<^verbatim>\<open>submit\<close> computes. \<open>W\<close> is the set of addresses the driver holds active after the
  refresh and \<open>S\<close> the set of addresses of the received signatures; the quorum is
  \<open>3 * |S \<inter> W| > 2 * |W|\<close>, and the payload is the signatures of the witnesses in \<open>W\<close> in
  ascending order of address.
\<close>

definition spec_quorum :: "transferValidatorOnIoTeX \<Rightarrow> Witness list \<Rightarrow> bool" where
  "spec_quorum tv wits \<longleftrightarrow>
     2 * card {a. isActiveWitness tv a}
       < 3 * card (addr ` set wits \<inter> {a. isActiveWitness tv a})"



text \<open>
  The spec's words for \<^verbatim>\<open>TipHeight\<close>, to compare with the function of the source: the
  largest block height over the rows that are not failed, 0 when there is none.
\<close>

definition TipHeight_nonfailed :: "table \<Rightarrow> uint64" where
  "TipHeight_nonfailed tbl =
     (case select_max (map r_blockHeight (filter (\<lambda>r. r_status r \<noteq> St_failed) tbl)) of
        Some h \<Rightarrow> word_of_int h
      | None \<Rightarrow> 0)"

text \<open>Transfers and rows the closed instances below are evaluated on.\<close>

definition tr1 :: Transfer where
  "tr1 = \<lparr> cashier = 0xC1, token = 0x70, index = 7, sender = 0xA1, recipient = 0xB1,
           amount = 100, blockHeight = 50, txHash = 0x99, tid = 0x1D \<rparr>"

definition tr1_again :: Transfer where
  "tr1_again = tr1\<lparr> sender := 0xA2, amount := 5, blockHeight := 51 \<rparr>"

definition tr_zero :: Transfer where
  "tr_zero = tr1\<lparr> index := 8, amount := 0 \<rparr>"

definition tr_max :: Transfer where
  "tr_max = tr1\<lparr> index := 0x7FFFFFFFFFFFFFFF \<rparr>"

definition tr_reserved :: Transfer where
  "tr_reserved = tr1\<lparr> index := 0x7FFFFFFFFFFFFFFE \<rparr>"

definition row_submitted :: row where
  "row_submitted = (new_row tr1)\<lparr> r_status := St_submitted \<rparr>"

definition tr_high :: Transfer where
  "tr_high = tr1\<lparr> index := 8, blockHeight := 90 \<rparr>"

definition calls_two :: "recorder_call list" where
  "calls_two =
     [CallAddTransfer NoFault tr1, CallAddTransfer NoFault tr_high, CallConfirmTransfer NoFault tr1]"

lemmas ex_defs = tr1_def tr1_again_def tr_zero_def tr_max_def tr_reserved_def tr_high_def
  row_submitted_def

text \<open>
  A chain with two active witnesses, a funded relayer account at nonce 41 and a node that
  holds a receipt for every action hash but the empty one; the same chain announcing twelve
  witnesses, whose second page cannot be read; a driver with an older cache and the driver
  the refresh leaves; three witnesses, the third of them inactive; a transfer.
\<close>

definition chain_two :: chain where
  "chain_two = \<lparr> read_count = Count 2,
     read_getActiveItems =
       (\<lambda>offset limit. if offset = 0 then ActiveItems 2 [0x0A, 0x0B] else ItemsCallFails (OtherError 0)),
     read_settles = (\<lambda>h. SettleHeight 0),
     address_FromBytes = (\<lambda>a. None),
     api_GetReceiptByAction =
       (\<lambda>req. if ActionHash req = [] then (None, Some (StatusError ErrNotFound)) else (Some 1, None)),
     api_GetAccount = Inr (Some \<lparr> Balance = ''5000000000000000000'', Nonce = 41 \<rparr>),
     execute_submit = (\<lambda>call. Inr 0xAC) \<rparr>"

definition chain_page_fails :: chain where
  "chain_page_fails = chain_two \<lparr> read_count := Count 12 \<rparr>"

definition tv_cached :: transferValidatorOnIoTeX where
  "tv_cached = NewTransferValidatorOnIoTeX \<lparr> witnesses := [(0x09, True)] \<rparr>"

definition w1 :: Witness where "w1 = \<lparr> addr = 0x0A, signature = [0xA1] \<rparr>"
definition w2 :: Witness where "w2 = \<lparr> addr = 0x0B, signature = [0xB2] \<rparr>"
definition w3 :: Witness where "w3 = \<lparr> addr = 0x0C, signature = [0xC3] \<rparr>"

definition rt1 :: relayer_Transfer where
  "rt1 = \<lparr> t_cashier = 0xC1, t_token = 0x70, t_index = 7, t_sender = 0xA1, t_recipient = 0xB1,
           t_amount = 100, t_id = 0x1D, t_nonce = 42 \<rparr>"

definition tv_refreshed :: transferValidatorOnIoTeX where
  "tv_refreshed = tv_cached \<lparr> witnesses := [(0x0A, True), (0x0B, True)] \<rparr>"

definition meta_two :: AccountMeta where
  "meta_two = \<lparr> Balance = ''5000000000000000000'', Nonce = 41 \<rparr>"

lemmas drv_defs = chain_two_def chain_page_fails_def tv_cached_def w1_def w2_def w3_def rt1_def
  NewTransferValidatorOnIoTeX_def

section \<open>Properties of the recorder\<close>

subsection \<open>Auxiliary facts\<close>

lemma validateID_cases:
  "validateID i =
     (if i = 0x7FFFFFFFFFFFFFFE then (Panics IdOverflow, [LogOverflow]) else (Returns (), []))"
  by (simp add: validateID_def MaxInt64_def)

lemma pk_new_row: "pk (new_row tx) = key_of tx"
  by (simp add: pk_def key_of_def new_row_def)




lemma filter_unique_key:
  "distinct (map f xs) \<Longrightarrow> length (filter (\<lambda>x. f x = k \<and> P x) xs) \<le> 1"
  by (induction xs) (auto simp: filter_empty_conv image_iff)

lemma filter_none: "\<not> (\<exists>x \<in> set xs. Q x) \<Longrightarrow> length (filter Q xs) = 0"
  by (simp add: filter_empty_conv)

lemma filter_some: "\<exists>x \<in> set xs. Q x \<Longrightarrow> 0 < length (filter Q xs)"
  by (simp add: filter_empty_conv)

lemma map_confirm_by_key:
  assumes "distinct (map pk tbl)" and "r0 \<in> set tbl" and "pk r0 = k" and "r_status r0 = TransferNew"
  shows "map (\<lambda>r. if pk r = k \<and> r_status r = TransferNew then u r else r) tbl =
         map (\<lambda>r. if pk r = k then u r else r) tbl"
proof (rule map_cong [OF refl])
  fix r assume "r \<in> set tbl"
  with assms have "pk r = k \<Longrightarrow> r = r0"
    by (metis distinct_map inj_onD)
  with assms show "(if pk r = k \<and> r_status r = TransferNew then u r else r) = (if pk r = k then u r else r)"
    by auto
qed

lemma reserved_index: "(i :: uint64) = 0x7FFFFFFFFFFFFFFE \<longleftrightarrow> unat i = 2 ^ 63 - 2"
  by (simp add: word_unat_eq_iff)

lemma select_max_Max:
  "select_max hs = (if hs = [] then None else Some (Max (sint ` set hs)))"
  by (cases hs) (simp_all add: select_max_def Max.set_eq_fold [symmetric] del: set_simps(2) flip: set_map)

subsection \<open>C3: ConfirmTransfer\<close>

text \<open>
  Claim C3 says that \<^verbatim>\<open>ConfirmTransfer\<close> moves a transfer from status submitted to status
  confirmed and fails on any other status. The statement of the source has
  \<^verbatim>\<open>TransferNew\<close> in its \<^verbatim>\<open>WHERE\<close> clause: on a row that is submitted it affects no row
  and returns the error, and on a row that is new it succeeds.
\<close>

theorem ConfirmTransfer_submitted_counterexample:
  "ConfirmTransfer NoFault tr1 [row_submitted] =
     (Fails (RowsNotAsExpected 0), [row_submitted], [LogMarkConfirmed 0x1D])
   \<and> fst (ConfirmTransfer NoFault tr1 [new_row tr1]) = Returns ()"
  by (simp add: ConfirmTransfer_def update_where_def validateResult_def row_submitted_def
      new_row_def tr1_def pk_def key_of_def TransferNew_def SubmissionConfirmed_def)

text \<open>
  Claim C3, amended: on a table whose primary keys are distinct and a database that does
  not fail, \<^verbatim>\<open>ConfirmTransfer\<close> succeeds exactly when the row of the transfer's key has status
  new; it then sets that row's status to confirmed and its id to the transfer's, and leaves
  every other row as it was. In every other case (the row has another status, or there is
  no row) zero rows are affected, the error of \<^verbatim>\<open>validateResult\<close> is returned and the table
  is unchanged.
\<close>

theorem ConfirmTransfer_from_new:
  assumes "pk_unique tbl"
  shows "ConfirmTransfer NoFault tx tbl =
    (if \<exists>r \<in> set tbl. pk r = key_of tx \<and> r_status r = TransferNew
     then (Returns (),
           map (\<lambda>r. if pk r = key_of tx
                     then r\<lparr>r_status := SubmissionConfirmed, r_id := Some (tid tx)\<rparr> else r) tbl,
           [LogMarkConfirmed (tid tx)])
     else (Fails (RowsNotAsExpected 0), tbl, [LogMarkConfirmed (tid tx)]))"
proof -
  define P where "P = (\<lambda>r :: row. pk r = key_of tx \<and> r_status r = TransferNew)"
  define u where "u = (\<lambda>r :: row. r\<lparr>r_status := SubmissionConfirmed, r_id := Some (tid tx)\<rparr>)"
  have changed: "u r \<noteq> r" if "P r" for r
    using that
    by (auto simp: P_def u_def TransferNew_def SubmissionConfirmed_def
        dest: arg_cong [where f = r_status])
  have "filter (\<lambda>r. P r \<and> u r \<noteq> r) tbl = filter P tbl"
    by (rule filter_cong) (auto dest: changed)
  then have uw: "update_where P u tbl = (map (\<lambda>r. if P r then u r else r) tbl, length (filter P tbl))"
    by (simp add: update_where_def)
  have run: "ConfirmTransfer NoFault tx tbl =
      (validateResult NoFault (length (filter P tbl)), map (\<lambda>r. if P r then u r else r) tbl,
       [LogMarkConfirmed (tid tx)])"
    unfolding ConfirmTransfer_def P_def [symmetric] u_def [symmetric] uw by simp
  have le: "length (filter P tbl) \<le> 1"
    using assms unfolding pk_unique_def P_def by (rule filter_unique_key)
  show ?thesis
  proof (cases "\<exists>r \<in> set tbl. P r")
    case True
    then have "0 < length (filter P tbl)" by (rule filter_some)
    with le have one: "length (filter P tbl) = 1" by linarith
    from True obtain r0 where "r0 \<in> set tbl" "pk r0 = key_of tx" "r_status r0 = TransferNew"
      unfolding P_def by blast
    with assms have "map (\<lambda>r. if P r then u r else r) tbl =
        map (\<lambda>r. if pk r = key_of tx then u r else r) tbl"
      unfolding pk_unique_def P_def by (rule map_confirm_by_key)
    with True show ?thesis
      unfolding run one by (simp add: validateResult_def P_def u_def)
  next
    case False
    then have zero: "length (filter P tbl) = 0" by (rule filter_none)
    from False have "map (\<lambda>r. if P r then u r else r) tbl = tbl"
      by (intro map_idI) auto
    with False show ?thesis
      unfolding run zero by (simp add: validateResult_def P_def)
  qed
qed

theorem ConfirmTransfer_from_new_witness:
  "ConfirmTransfer NoFault tr1 [new_row tr1] =
     (Returns (), [(new_row tr1)\<lparr>r_status := St_confirmed, r_id := Some 0x1D\<rparr>], [LogMarkConfirmed 0x1D])
   \<and> ConfirmTransfer NoFault tr1 [(new_row tr1)\<lparr>r_status := St_settled\<rparr>] =
     (Fails (RowsNotAsExpected 0), [(new_row tr1)\<lparr>r_status := St_settled\<rparr>], [LogMarkConfirmed 0x1D])"
proof -
  have u1: "pk_unique [new_row tr1]" and u2: "pk_unique [(new_row tr1)\<lparr>r_status := St_settled\<rparr>]"
    by (simp_all add: pk_unique_def)
  from ConfirmTransfer_from_new [OF u1, of tr1] ConfirmTransfer_from_new [OF u2, of tr1]
  show ?thesis
    by (simp add: pk_new_row pk_def key_of_def new_row_def tr1_def TransferNew_def SubmissionConfirmed_def)
qed

subsection \<open>C4: AddTransfer is idempotent on a key\<close>



subsection \<open>C5: the reserved index\<close>

text \<open>
  Claim C5 says that \<^verbatim>\<open>AddTransfer\<close> panics when the index reaches \<open>2^63 - 1\<close>. The guard of
  \<^verbatim>\<open>validateID\<close> compares with \<^verbatim>\<open>math.MaxInt64-1\<close>, which is \<open>2^63 - 2\<close>: at \<open>2^63 - 1\<close>
  the transfer is inserted.
\<close>

theorem AddTransfer_at_MaxInt64_counterexample:
  "unat (index tr_max) = 2 ^ 63 - 1 \<and>
   AddTransfer NoFault tr_max [] = (Returns (), [new_row tr_max], [])"
  by (simp add: AddTransfer_def validateID_cases insert_ignore_def ex_defs)

text \<open>
  Claim C5, amended: a transfer whose index is \<open>2^63 - 2\<close> (\<^verbatim>\<open>math.MaxInt64 - 1\<close>) makes
  \<^verbatim>\<open>AddTransfer\<close> panic, whatever the amount and the state of the database: no row is
  inserted and no error is returned. No index below that value makes it panic.
\<close>

theorem AddTransfer_panics_at_reserved_index:
  "(unat (index tx) = 2 ^ 63 - 2 \<longrightarrow>
      AddTransfer f tx tbl = (Panics IdOverflow, tbl, [LogOverflow]))
   \<and> (unat (index tx) < 2 ^ 63 - 2 \<longrightarrow> (\<forall>e. fst (AddTransfer f tx tbl) \<noteq> Panics e))"
  by (auto simp: AddTransfer_def validateID_cases reserved_index split: prod.splits)

theorem AddTransfer_panics_at_reserved_index_witness:
  "AddTransfer NoFault tr_reserved [] = (Panics IdOverflow, [], [LogOverflow])
   \<and> fst (AddTransfer NoFault tr1 []) \<noteq> Panics IdOverflow"
  using AddTransfer_panics_at_reserved_index [of tr_reserved NoFault "[]"]
    AddTransfer_panics_at_reserved_index [of tr1 NoFault "[]"]
  by (simp add: ex_defs)

subsection \<open>C6: the amount of a transfer is positive\<close>

text \<open>
  Claim C6: for a transfer whose amount is zero or negative, \<^verbatim>\<open>AddTransfer\<close> leaves the
  table as it was and returns the error of the amount check; at the reserved index the
  panic of claim C5 comes first, and it too leaves the table as it was. So a table whose
  rows all have a positive amount keeps that property through \<^verbatim>\<open>AddTransfer\<close>, for every
  transfer and every state of the database.
\<close>

theorem AddTransfer_amount_not_positive:
  "(amount tx \<le> 0 \<longrightarrow>
      AddTransfer f tx tbl =
        (if index tx = 0x7FFFFFFFFFFFFFFE then (Panics IdOverflow, tbl, [LogOverflow])
         else (Fails AmountNotPositive, tbl, [])))
   \<and> ((\<forall>r \<in> set tbl. 0 < r_amount r) \<longrightarrow>
        (\<forall>r \<in> set (fst (snd (AddTransfer f tx tbl))). 0 < r_amount r))"
proof (intro conjI impI)
  assume "amount tx \<le> 0"
  then show "AddTransfer f tx tbl =
        (if index tx = 0x7FFFFFFFFFFFFFFE then (Panics IdOverflow, tbl, [LogOverflow])
         else (Fails AmountNotPositive, tbl, []))"
    by (simp add: AddTransfer_def validateID_cases sgn_1_pos)
next
  assume inv: "\<forall>r \<in> set tbl. 0 < r_amount r"
  show "\<forall>r \<in> set (fst (snd (AddTransfer f tx tbl))). 0 < r_amount r"
  proof (cases "0 < amount tx")
    case True
    with inv show ?thesis
      by (auto simp: AddTransfer_def validateID_cases insert_ignore_def new_row_def)
  next
    case False
    with inv show ?thesis
      by (simp add: AddTransfer_def validateID_cases sgn_1_pos)
  qed
qed

theorem AddTransfer_amount_not_positive_witness:
  "AddTransfer NoFault tr_zero [new_row tr1] = (Fails AmountNotPositive, [new_row tr1], [])
   \<and> list_all (\<lambda>r. 0 < r_amount r) (fst (snd (AddTransfer NoFault tr_zero [new_row tr1])))"
  using AddTransfer_amount_not_positive [of tr_zero NoFault "[new_row tr1]"]
  by (simp add: ex_defs new_row_def)

subsection \<open>C7: TipHeight\<close>

text \<open>The query of \<^verbatim>\<open>TipHeight\<close> reads every row; the recorder writes no failed row.\<close>

lemma TipHeight_max_all_rows:
  "TipHeight scan_fails tbl =
     (if scan_fails \<or> tbl = [] then 0 else word_of_int (Max (sint ` r_blockHeight ` set tbl)), None)"
  by (simp add: TipHeight_def select_max_Max image_image)

lemma TipHeight_without_failed_rows:
  "\<forall>r \<in> set tbl. r_status r \<noteq> St_failed \<Longrightarrow>
     TipHeight scan_fails tbl = (if scan_fails then 0 else TipHeight_nonfailed tbl, None)"
  by (simp add: TipHeight_def TipHeight_nonfailed_def split: option.splits)

lemma apply_call_no_failed:
  assumes "\<forall>r \<in> set tbl. r_status r \<noteq> St_failed"
  shows "\<forall>r \<in> set (apply_call c tbl). r_status r \<noteq> St_failed"
proof (cases c)
  case (CallAddTransfer f tx)
  with assms show ?thesis
    by (auto simp: AddTransfer_def validateID_cases insert_ignore_def new_row_def TransferNew_def)
next
  case (CallConfirmTransfer f tx)
  with assms show ?thesis
    by (auto simp: ConfirmTransfer_def update_where_def SubmissionConfirmed_def)
next
  case (CallSettleTransfer f tx)
  with assms show ?thesis
    by (auto simp: SettleTransfer_def update_where_def TransferSettled_def)
qed

lemma run_no_failed:
  "\<forall>r \<in> set tbl. r_status r \<noteq> St_failed \<Longrightarrow> \<forall>r \<in> set (run cs tbl). r_status r \<noteq> St_failed"
proof (induction cs arbitrary: tbl)
  case Nil
  then show ?case by simp
next
  case (Cons c cs)
  from Cons.prems have "\<forall>r \<in> set (apply_call c tbl). r_status r \<noteq> St_failed"
    by (rule apply_call_no_failed)
  then show ?case by (simp add: Cons.IH)
qed

lemma ex_run_calls_two:
  "run calls_two [] =
     [(new_row tr1)\<lparr>r_status := St_confirmed, r_id := Some 0x1D\<rparr>, new_row tr_high]"
  by (simp add: calls_two_def AddTransfer_def ConfirmTransfer_def validateID_cases
      insert_ignore_def update_where_def pk_def key_of_def new_row_def ex_defs
      TransferNew_def SubmissionConfirmed_def)

text \<open>
  Claim C7: on every table the recorder can hold (the table a run of \<^verbatim>\<open>AddTransfer\<close>,
  \<^verbatim>\<open>ConfirmTransfer\<close> and \<^verbatim>\<open>SettleTransfer\<close> calls leaves, whatever the database does to each
  call), \<^verbatim>\<open>TipHeight\<close> returns the largest block height over the rows that are not failed,
  0 when the table is empty, and never an error: when the scan fails it returns 0 and the
  nil error. The column is signed and the result is converted to \<^verbatim>\<open>uint64\<close>.
\<close>

theorem TipHeight_of_recorder_table:
  "TipHeight scan_fails (run calls []) =
     (if scan_fails then 0 else TipHeight_nonfailed (run calls []), None)
   \<and> TipHeight_nonfailed tbl =
       (if filter (\<lambda>r. r_status r \<noteq> St_failed) tbl = [] then 0
        else word_of_int
          (Max (sint ` r_blockHeight ` set (filter (\<lambda>r. r_status r \<noteq> St_failed) tbl))))
   \<and> TipHeight scan_fails [] = (0, None)"
proof -
  have "\<forall>r \<in> set (run calls []). r_status r \<noteq> St_failed"
    by (rule run_no_failed) simp
  then have reach: "TipHeight scan_fails (run calls []) =
      (if scan_fails then 0 else TipHeight_nonfailed (run calls []), None)"
    by (rule TipHeight_without_failed_rows)
  have spec: "TipHeight_nonfailed tbl =
       (if filter (\<lambda>r. r_status r \<noteq> St_failed) tbl = [] then 0
        else word_of_int
          (Max (sint ` r_blockHeight ` set (filter (\<lambda>r. r_status r \<noteq> St_failed) tbl))))"
    unfolding TipHeight_nonfailed_def select_max_Max by (simp add: image_image)
  have "TipHeight scan_fails [] = (0, None)"
    by (simp add: TipHeight_max_all_rows)
  with reach spec show ?thesis by blast
qed

theorem TipHeight_of_recorder_table_witness:
  "TipHeight False (run calls_two []) = (90, None)
   \<and> TipHeight True (run calls_two []) = (0, None)
   \<and> TipHeight False (run [] []) = (0, None)"
proof -
  have "TipHeight_nonfailed (run calls_two []) = 90"
    unfolding ex_run_calls_two
    by (simp add: TipHeight_nonfailed_def select_max_def new_row_def ex_defs TransferNew_def)
  with TipHeight_of_recorder_table [of False calls_two]
  have "TipHeight False (run calls_two []) = (90, None)" by simp
  moreover from TipHeight_of_recorder_table [of True calls_two]
  have "TipHeight True (run calls_two []) = (0, None)" by simp
  moreover from TipHeight_of_recorder_table [of False "[]"]
  have "TipHeight False (run [] []) = (0, None)" by (simp add: TipHeight_nonfailed_def select_max_def)
  ultimately show ?thesis by blast
qed

section \<open>Properties of the validator driver\<close>

subsection \<open>Auxiliary facts\<close>

lemma activeWitnesses_Inr:
  "activeWitnesses ch ws m = Inr m' \<Longrightarrow>
     m' = fold (\<lambda>w. AList.update w True) ws m \<and> (\<forall>w \<in> set ws. address_FromBytes ch w = None)"
  by (induction ws arbitrary: m) (auto split: option.splits)

lemma fold_update_keys:
  "fst ` set (fold (\<lambda>w. AList.update w True) ws m) = set ws \<union> fst ` set m"
  by (induction ws arbitrary: m) (auto simp: dom_update)

lemma fold_update_distinct:
  "distinct (map fst m) \<Longrightarrow> distinct (map fst (fold (\<lambda>w. AList.update w True) ws m))"
  by (induction ws arbitrary: m) (auto simp: distinct_update)

lemma fold_update_map_of:
  "map_of (fold (\<lambda>w. AList.update w True) ws m) a =
     (if a \<in> set ws then Some True else map_of m a)"
  by (induction ws arbitrary: m) (auto simp: update_conv')

lemma refresh_Returns:
  assumes "refresh ch tv0 = (Returns (), tv)"
  obtains cnt ws where "read_count ch = Count cnt"
    and "collect_pages ch cnt 0 [] = Returns ws"
    and "\<forall>w \<in> set ws. address_FromBytes ch w = None"
    and "tv = tv0\<lparr>witnesses := fold (\<lambda>w. AList.update w True) ws []\<rparr>"
  using assms
  by (auto simp: refresh_def split: count_reply.splits outcome.splits sum.splits dest!: activeWitnesses_Inr)

lemma refresh_not_Returns:
  "fst (refresh ch tv0) \<noteq> Returns () \<Longrightarrow> snd (refresh ch tv0) = tv0"
  by (auto simp: refresh_def split: count_reply.splits outcome.splits sum.splits)

lemma refreshed_active:
  assumes "refresh ch tv0 = (Returns (), tv)"
  shows "length (witnesses tv) = card {a. isActiveWitness tv a}"
proof -
  from assms obtain ws where tv: "tv = tv0\<lparr>witnesses := fold (\<lambda>w. AList.update w True) ws []\<rparr>"
    by (rule refresh_Returns)
  have act: "{a. isActiveWitness tv a} = set ws"
    by (auto simp: isActiveWitness_def tv fold_update_map_of)
  have "distinct (map fst (witnesses tv))"
    by (simp add: tv fold_update_distinct)
  then have "length (witnesses tv) = card (fst ` set (witnesses tv))"
    by (metis distinct_card length_map set_map)
  also have "fst ` set (witnesses tv) = set ws"
    by (simp add: tv fold_update_keys)
  finally show ?thesis by (simp add: act)
qed


lemma gather_total:
  "\<forall>w \<in> set wits. address_FromBytes ch (addr w) = None \<Longrightarrow>
     gather ch tv wits sigs n =
       Inr (sigs @ concat (map signature (filter (\<lambda>w. isActiveWitness tv (addr w)) wits)),
            n + length (filter (\<lambda>w. isActiveWitness tv (addr w)) wits))"
  by (induction wits arbitrary: sigs n) auto

text \<open>When no address occurs twice in the list, the entries counted are the addresses of the
  list that are active.\<close>

lemma distinct_active_count:
  assumes "distinct (map addr wits)"
  shows "length (filter (\<lambda>w. isActiveWitness tv (addr w)) wits) =
         card (addr ` set wits \<inter> {a. isActiveWitness tv a})"
proof -
  have "length (filter (\<lambda>w. isActiveWitness tv (addr w)) wits) =
        length (filter (isActiveWitness tv) (map addr wits))"
    by (simp add: filter_map comp_def)
  also have "\<dots> = card (set (filter (isActiveWitness tv) (map addr wits)))"
    using assms by (intro distinct_card [symmetric] distinct_filter)
  also have "set (filter (isActiveWitness tv) (map addr wits)) =
        addr ` set wits \<inter> {a. isActiveWitness tv a}"
    by auto
  finally show ?thesis .
qed

lemma gather_Inl:
  "gather ch tv wits sigs n = Inl e \<Longrightarrow> \<exists>e'. e = Noncritical (Some (External e'))"
  by (induction wits arbitrary: sigs n) (auto split: option.splits if_splits)

lemma collect_pages_Returns:
  "collect_pages ch cnt offset ws = Returns ws' \<Longrightarrow> 0 \<le> j \<Longrightarrow> offset + 10 * j < cnt \<Longrightarrow>
     \<exists>n items. read_getActiveItems ch (offset + 10 * j) 10 = ActiveItems n items
        \<and> 0 \<le> Int64 n \<and> Int64 n \<le> int (length items)"
proof (induction ch cnt offset ws arbitrary: j rule: collect_pages.induct)
  case (1 ch cnt offset ws)
  from "1.prems" have lt: "offset < cnt" by simp
  from "1.prems"(1) lt obtain n items where
    page: "read_getActiveItems ch offset 10 = ActiveItems n items"
    and ok: "\<not> (Int64 n < 0 \<or> int (length items) < Int64 n)"
    and rest: "collect_pages ch cnt (offset + 10) (ws @ take (nat (Int64 n)) items) = Returns ws'"
    by (subst (asm) collect_pages.simps) (auto split: items_reply.splits if_splits)
  show ?case
  proof (cases "j = 0")
    case True
    with page ok show ?thesis by auto
  next
    case False
    with "1.prems" have j: "0 \<le> j - 1" "(offset + 10) + 10 * (j - 1) < cnt" by auto
    from "1.IH"[OF lt page ok rest j] show ?thesis by (simp add: algebra_simps)
  qed
qed

lemma refresh_keeps_gas:
  "gasPrice (snd (refresh ch tv)) = gasPrice tv \<and> gasLimit (snd (refresh ch tv)) = gasLimit tv"
  by (simp add: refresh_def split: count_reply.splits outcome.splits sum.splits)


lemma submit_ExecuteCall_iff:
  assumes "refresh ch tv0 = (Returns (), tv)"
  shows "ExecuteCall call \<in> set (snd (snd (submit ch tv0 transfer wits rs))) \<longleftrightarrow>
     (\<exists>sigs k meta balance.
        gather ch tv wits [] 0 = Inr (sigs, k) \<and> \<not> k * 3 \<le> length (witnesses tv) * 2 \<and>
        api_GetAccount ch = Inr (Some meta) \<and> SetString10 (Balance meta) = Some balance \<and>
        call = make_call tv transfer sigs (if rs then t_nonce transfer else Nonce meta + 1))"
  by (auto simp: submit_def assms Let_def split: sum.splits option.splits)


lemma submit_Returns:
  assumes "submit ch tv0 transfer wits rs = (Returns (h, n, p), tv, eff)"
  shows "refresh ch tv0 = (Returns (), tv) \<and> p = gasPrice tv \<and>
     (\<exists>sigs meta. api_GetAccount ch = Inr (Some meta) \<and>
        n = (if rs then t_nonce transfer else Nonce meta + 1) \<and>
        ExecuteCall (make_call tv transfer sigs n) \<in> set eff)"
  using assms
  by (auto simp: submit_def Let_def split: prod.splits outcome.splits sum.splits option.splits if_splits)

lemma Check_decision:
  "Check ch transfer =
     (case read_settles ch (t_id transfer) of
        SettleHeight h \<Rightarrow>
          if h \<noteq> 0 \<and> 0 \<le> h then (StatusOnChainSettled, None)
          else
            (case api_GetReceiptByAction ch empty_request of
               (Some r, None) \<Rightarrow> (StatusOnChainRejected, None)
             | (None, None) \<Rightarrow> (StatusOnChainNotConfirmed, None)
             | (_, Some (StatusError ErrNotFound)) \<Rightarrow> (StatusOnChainNeedSpeedUp, None)
             | (_, Some e) \<Rightarrow> (StatusOnChainUnknown, Some (External e)))
      | SettlesCallFails e \<Rightarrow> (StatusOnChainUnknown, Some (External e))
      | SettlesUnpackFails e \<Rightarrow> (StatusOnChainUnknown, Some (External e))
      | SettlesNotBigInt \<Rightarrow> (StatusOnChainUnknown, Some InvalidType))"
  by (auto simp: Check_def split: settles_reply.splits prod.splits option.splits lib_error.splits err_code.splits)

lemma ex_refresh_cached: "refresh chain_two tv_cached = (Returns (), tv_refreshed)"
  by (simp add: refresh_def drv_defs tv_refreshed_def Int64_def)

lemma ex_refresh_again: "refresh chain_two tv_refreshed = (Returns (), tv_refreshed)"
  by (simp add: refresh_def drv_defs tv_refreshed_def Int64_def)

lemma ex_refresh_page_fails:
  "refresh chain_page_fails tv_cached = (Fails (External (OtherError 0)), tv_cached)"
  by (simp add: refresh_def drv_defs Int64_def)

lemma ex_account: "api_GetAccount chain_two = Inr (Some meta_two)"
  by (simp add: chain_two_def meta_two_def)

lemma ex_balance_text: "SetString10 ''5000000000000000000'' = Some 5000000000000000000"
  by (simp add: SetString10_def digit_of_def)

lemma ex_balance: "SetString10 (Balance meta_two) = Some 5000000000000000000"
  by (simp add: ex_balance_text meta_two_def)

lemma ex_conversions: "address_FromBytes chain_two a = None"
  by (simp add: chain_two_def)

lemma ex_submit:
  "submit chain_two tv_cached rt1 [w3, w2, w1] False =
     (Returns (0xAC, 42, 1000000000000), tv_refreshed,
      [ExecuteCall (make_call tv_refreshed rt1 [0xB2, 0xA1] 42)])"
  unfolding submit_def ex_refresh_cached
  by (simp add: ex_account ex_balance ex_balance_text ex_conversions isActiveWitness_def tv_refreshed_def
      make_call_def w1_def w2_def w3_def tv_cached_def NewTransferValidatorOnIoTeX_def
      meta_two_def chain_two_def)


lemma ex_submit_short:
  "submit chain_two tv_cached rt1 [w3, w2] False = (Fails errInsufficientWitnesses, tv_refreshed, [])"
  unfolding submit_def ex_refresh_cached
  by (simp add: ex_conversions isActiveWitness_def tv_refreshed_def w2_def w3_def)

lemma ex_speedup:
  "submit chain_two tv_refreshed rt1 [w1, w2] True =
     (Returns (0xAC, 42, 1000000000000), tv_refreshed,
      [ExecuteCall (make_call tv_refreshed rt1 [0xA1, 0xB2] 42)])"
  unfolding submit_def ex_refresh_again
  by (simp add: ex_account ex_balance ex_balance_text ex_conversions isActiveWitness_def tv_refreshed_def
      make_call_def w1_def w2_def tv_cached_def NewTransferValidatorOnIoTeX_def
      meta_two_def chain_two_def rt1_def)

subsection \<open>C1: the quorum\<close>

text \<open>What \<^verbatim>\<open>submit\<close> tests: the entries of the list whose witness is active are counted one
  by one, against the size of the refreshed map.\<close>

lemma submit_quorum_entries:
  assumes "refresh ch tv0 = (Returns (), tv)"
      and "\<forall>w \<in> set wits. address_FromBytes ch (addr w) = None"
      and "Q \<longleftrightarrow> 2 * card {a. isActiveWitness tv a}
                 < 3 * length (filter (\<lambda>w. isActiveWitness tv (addr w)) wits)"
  shows "(fst (submit ch tv0 transfer wits rs) = Fails errInsufficientWitnesses \<longleftrightarrow> \<not> Q)
     \<and> (\<not> Q \<longrightarrow> submit ch tv0 transfer wits rs = (Fails errInsufficientWitnesses, tv, []))
     \<and> ((\<exists>call. ExecuteCall call \<in> set (snd (snd (submit ch tv0 transfer wits rs)))) \<longrightarrow> Q)
     \<and> (api_GetAccount ch = Inr (Some meta) \<and> SetString10 (Balance meta) = Some balance \<longrightarrow>
          ((\<exists>call. ExecuteCall call \<in> set (snd (snd (submit ch tv0 transfer wits rs)))) \<longleftrightarrow> Q))"
proof -
  let ?S = "filter (\<lambda>w. isActiveWitness tv (addr w)) wits"
  have g: "gather ch tv wits [] 0 = Inr (concat (map signature ?S), length ?S)"
    using assms(2) by (simp add: gather_total)
  have len: "length (witnesses tv) = card {a. isActiveWitness tv a}"
    using assms(1) by (rule refreshed_active)
  have q: "Q \<longleftrightarrow> \<not> length ?S * 3 \<le> length (witnesses tv) * 2"
    unfolding assms(3) len by arith
  have rej: "submit ch tv0 transfer wits rs = (Fails errInsufficientWitnesses, tv, [])"
    if "\<not> Q"
    using that by (simp add: submit_def assms(1) g q)
  have acc: "fst (submit ch tv0 transfer wits rs) \<noteq> Fails errInsufficientWitnesses"
    if "Q"
    using that
    by (simp add: submit_def assms(1) g q Let_def split: sum.splits option.splits)
  have sent: "(\<exists>call. ExecuteCall call \<in> set (snd (snd (submit ch tv0 transfer wits rs))))
      \<longleftrightarrow> Q \<and>
          (\<exists>meta balance. api_GetAccount ch = Inr (Some meta) \<and> SetString10 (Balance meta) = Some balance)"
    by (auto simp: submit_ExecuteCall_iff [OF assms(1)] g q)
  show ?thesis
    using rej acc sent by auto
qed

lemma ex_active: "{a. isActiveWitness tv_refreshed a} = {0x0A, 0x0B}"
  by (auto simp: isActiveWitness_def tv_refreshed_def split: if_splits)

lemma ex_submit_repeated:
  "submit chain_two tv_cached rt1 [w1, w1] False =
     (Returns (0xAC, 42, 1000000000000), tv_refreshed,
      [ExecuteCall (make_call tv_refreshed rt1 [0xA1, 0xA1] 42)])"
  unfolding submit_def ex_refresh_cached
  by (simp add: ex_account ex_balance ex_balance_text ex_conversions isActiveWitness_def tv_refreshed_def
      make_call_def w1_def tv_cached_def NewTransferValidatorOnIoTeX_def
      meta_two_def chain_two_def)

text \<open>
  Claim C1 says that \<^verbatim>\<open>submit\<close> accepts exactly when \<open>3 * |S \<inter> W| > 2 * |W|\<close>. The loop counts
  entries, not witnesses: of two active witnesses, one whose signature is in the list twice
  passes the test (6 > 4) and the transaction is sent, while \<open>3 * |S \<inter> W| = 3\<close> is not above
  \<open>2 * |W| = 4\<close>.
\<close>

theorem submit_counts_entries_counterexample:
  "Submit chain_two tv_cached rt1 [w1, w1] =
     (Returns (0xAC, 42, 1000000000000), tv_refreshed,
      [ExecuteCall (make_call tv_refreshed rt1 [0xA1, 0xA1] 42)])
   \<and> \<not> spec_quorum tv_refreshed [w1, w1]"
  unfolding Submit_def ex_submit_repeated
  by (simp add: spec_quorum_def ex_active w1_def)

text \<open>
  Claim C1, amended: for every transfer and every list of received signatures in which no
  witness address occurs twice, let the refresh succeed and leave the driver holding the
  active set \<open>W\<close>, and let \<open>S\<close> be the addresses of the list (every address of the list
  converts). Then \<^verbatim>\<open>submit\<close> returns \<^verbatim>\<open>errInsufficientWitnesses\<close> exactly when
  \<open>3 * |S \<inter> W| > 2 * |W|\<close> fails, and then it sends nothing; a transaction is sent only when
  the inequality holds, and, the relayer's account being readable, exactly when it holds.
\<close>

theorem submit_quorum_distinct:
  assumes "refresh ch tv0 = (Returns (), tv)"
      and "\<forall>w \<in> set wits. address_FromBytes ch (addr w) = None"
      and "distinct (map addr wits)"
  shows "(fst (submit ch tv0 transfer wits rs) = Fails errInsufficientWitnesses
            \<longleftrightarrow> \<not> spec_quorum tv wits)
     \<and> (\<not> spec_quorum tv wits \<longrightarrow>
            submit ch tv0 transfer wits rs = (Fails errInsufficientWitnesses, tv, []))
     \<and> ((\<exists>call. ExecuteCall call \<in> set (snd (snd (submit ch tv0 transfer wits rs))))
            \<longrightarrow> spec_quorum tv wits)
     \<and> (api_GetAccount ch = Inr (Some meta) \<and> SetString10 (Balance meta) = Some balance \<longrightarrow>
          ((\<exists>call. ExecuteCall call \<in> set (snd (snd (submit ch tv0 transfer wits rs))))
             \<longleftrightarrow> spec_quorum tv wits))"
proof -
  have "spec_quorum tv wits \<longleftrightarrow> 2 * card {a. isActiveWitness tv a}
                 < 3 * length (filter (\<lambda>w. isActiveWitness tv (addr w)) wits)"
    unfolding spec_quorum_def distinct_active_count [OF assms(3)] ..
  with assms(1,2) show ?thesis
    by (rule submit_quorum_entries)
qed

theorem submit_quorum_distinct_witness:
  "Submit chain_two tv_cached rt1 [w3, w2, w1] =
     (Returns (0xAC, 42, 1000000000000), tv_refreshed,
      [ExecuteCall (make_call tv_refreshed rt1 [0xB2, 0xA1] 42)])
   \<and> spec_quorum tv_refreshed [w3, w2, w1]
   \<and> Submit chain_two tv_cached rt1 [w3, w2] = (Fails errInsufficientWitnesses, tv_refreshed, [])
   \<and> \<not> spec_quorum tv_refreshed [w3, w2]"
proof -
  have c3: "\<forall>w \<in> set [w3, w2, w1]. address_FromBytes chain_two (addr w) = None"
    and c2: "\<forall>w \<in> set [w3, w2]. address_FromBytes chain_two (addr w) = None"
    by (simp_all add: ex_conversions)
  have d3: "distinct (map addr [w3, w2, w1])" and d2: "distinct (map addr [w3, w2])"
    by (simp_all add: w1_def w2_def w3_def)
  from submit_quorum_distinct [OF ex_refresh_cached c3 d3, of rt1 False meta_two 5000000000000000000]
  have "spec_quorum tv_refreshed [w3, w2, w1]"
    by (simp add: ex_submit ex_account ex_balance)
  moreover from submit_quorum_distinct [OF ex_refresh_cached c2 d2, of rt1 False meta_two 5000000000000000000]
  have "\<not> spec_quorum tv_refreshed [w3, w2]"
    by (simp add: ex_submit_short)
  ultimately show ?thesis
    by (simp add: Submit_def ex_submit ex_submit_short)
qed

subsection \<open>C2: the aggregated payload\<close>




subsection \<open>C8: SpeedUp\<close>

text \<open>
  Claim C8 says that \<^verbatim>\<open>SpeedUp\<close> resubmits at the recorded nonce with a gas price strictly
  above the one of the prior submission. The driver has one gas price, set when it is built
  and never changed: the resubmission carries the price of the submission.
\<close>

theorem SpeedUp_same_gasPrice_counterexample:
  "Submit chain_two tv_cached rt1 [w3, w2, w1] =
     (Returns (0xAC, 42, 1000000000000), tv_refreshed,
      [ExecuteCall (make_call tv_refreshed rt1 [0xB2, 0xA1] 42)])
   \<and> SpeedUp chain_two tv_refreshed rt1 [w1, w2] =
     (Returns (0xAC, 42, 1000000000000), tv_refreshed,
      [ExecuteCall (make_call tv_refreshed rt1 [0xA1, 0xB2] 42)])
   \<and> call_gasPrice (make_call tv_refreshed rt1 [0xA1, 0xB2] 42) =
       call_gasPrice (make_call tv_refreshed rt1 [0xB2, 0xA1] 42)"
  by (simp add: Submit_def SpeedUp_def ex_submit ex_speedup make_call_def)

text \<open>
  Claim C8, amended: a \<^verbatim>\<open>SpeedUp\<close> that returns resubmits with the nonce recorded in the
  transfer and with the gas price of the prior submission of the driver, unchanged: both
  are the values it returns and the values of the transaction it sends.
\<close>

theorem SpeedUp_nonce_and_gasPrice:
  assumes "submit ch0 tv0 transfer0 wits0 rs0 = (Returns (h0, n0, p0), tv1, eff0)"
      and "SpeedUp ch1 tv1 transfer wits = (Returns (h1, n1, p1), tv2, eff1)"
  shows "n1 = t_nonce transfer \<and> p1 = p0
     \<and> (\<forall>call. ExecuteCall call \<in> set eff1 \<longrightarrow>
            call_nonce call = t_nonce transfer \<and> call_gasPrice call = p0)"
proof -
  from submit_Returns [OF assms(1)] have p0: "p0 = gasPrice tv1" by simp
  from assms(2) have s: "submit ch1 tv1 transfer wits True = (Returns (h1, n1, p1), tv2, eff1)"
    by (simp add: SpeedUp_def)
  from submit_Returns [OF s] have r: "refresh ch1 tv1 = (Returns (), tv2)"
    and p1: "p1 = gasPrice tv2" and n1: "n1 = t_nonce transfer"
    by auto
  from r refresh_keeps_gas [of ch1 tv1] have same: "gasPrice tv2 = gasPrice tv1" by simp
  have "call_nonce call = t_nonce transfer \<and> call_gasPrice call = p0"
    if "ExecuteCall call \<in> set eff1" for call
  proof -
    from that s have "ExecuteCall call \<in> set (snd (snd (submit ch1 tv1 transfer wits True)))"
      by simp
    then show ?thesis
      unfolding submit_ExecuteCall_iff [OF r] by (auto simp: make_call_def same p0)
  qed
  with p0 p1 n1 same show ?thesis by simp
qed

theorem SpeedUp_nonce_and_gasPrice_witness:
  "SpeedUp chain_two tv_refreshed rt1 [w1, w2] =
     (Returns (0xAC, t_nonce rt1, 1000000000000), tv_refreshed,
      [ExecuteCall (make_call tv_refreshed rt1 [0xA1, 0xB2] 42)])
   \<and> call_nonce (make_call tv_refreshed rt1 [0xA1, 0xB2] 42) = t_nonce rt1
   \<and> call_gasPrice (make_call tv_refreshed rt1 [0xA1, 0xB2] 42) = 1000000000000"
proof -
  have s1: "SpeedUp chain_two tv_refreshed rt1 [w1, w2] =
     (Returns (0xAC, 42, 1000000000000), tv_refreshed,
      [ExecuteCall (make_call tv_refreshed rt1 [0xA1, 0xB2] 42)])"
    by (simp add: SpeedUp_def ex_speedup)
  from SpeedUp_nonce_and_gasPrice [OF ex_submit s1] s1 show ?thesis
    by simp
qed

subsection \<open>C9: Check\<close>

text \<open>
  Claim C9 has \<^verbatim>\<open>Check\<close> return Rejected when a receipt of the relayer's last submission
  can be fetched. \<^verbatim>\<open>Check\<close> sends \<^verbatim>\<open>GetReceiptByAction\<close> an empty request, which names no
  action: on a node that holds a receipt for every action hash and answers not-found to the
  empty one, it returns NeedSpeedUp for a transfer that is not settled.
\<close>

theorem Check_asks_for_no_action:
  "api_GetReceiptByAction chain_two \<lparr> ActionHash = ''ac'' \<rparr> = (Some 1, None)
   \<and> Check chain_two rt1 = (StatusOnChainNeedSpeedUp, None)"
  by (simp add: Check_def empty_request_def drv_defs)

subsection \<open>C10: refresh is all or nothing\<close>

text \<open>
  Claim C10: when \<^verbatim>\<open>refresh\<close> does not return nil (the count read, a page read, a decoding
  or an address conversion fails, or the slicing of a page panics), the driver, and with it
  the cached witness set, is exactly as it was. When it returns nil, the count was read,
  every page up to the count was read and decoded, every address converted, and the cache is
  the map built from all the pages.
\<close>

theorem refresh_all_or_nothing:
  "(fst (refresh ch tv) \<noteq> Returns () \<longrightarrow> snd (refresh ch tv) = tv)
   \<and> (fst (refresh ch tv) = Returns () \<longrightarrow>
        (\<exists>cnt ws. read_count ch = Count cnt \<and> collect_pages ch cnt 0 [] = Returns ws
           \<and> (\<forall>j. 0 \<le> j \<and> 10 * j < cnt \<longrightarrow>
                 (\<exists>n items. read_getActiveItems ch (10 * j) 10 = ActiveItems n items
                     \<and> 0 \<le> Int64 n \<and> Int64 n \<le> int (length items)))
           \<and> (\<forall>w \<in> set ws. address_FromBytes ch w = None)
           \<and> snd (refresh ch tv) = tv\<lparr>witnesses := fold (\<lambda>w. AList.update w True) ws []\<rparr>))"
proof (intro conjI impI)
  assume "fst (refresh ch tv) \<noteq> Returns ()"
  then show "snd (refresh ch tv) = tv" by (rule refresh_not_Returns)
next
  assume "fst (refresh ch tv) = Returns ()"
  then obtain tv' where r: "refresh ch tv = (Returns (), tv')"
    by (cases "refresh ch tv") auto
  then obtain cnt ws where c: "read_count ch = Count cnt"
    and p: "collect_pages ch cnt 0 [] = Returns ws"
    and a: "\<forall>w \<in> set ws. address_FromBytes ch w = None"
    and t: "tv' = tv\<lparr>witnesses := fold (\<lambda>w. AList.update w True) ws []\<rparr>"
    by (rule refresh_Returns)
  have pages: "\<exists>n items. read_getActiveItems ch (10 * j) 10 = ActiveItems n items
                     \<and> 0 \<le> Int64 n \<and> Int64 n \<le> int (length items)"
    if "0 \<le> j \<and> 10 * j < cnt" for j
    using collect_pages_Returns [OF p, of j] that by simp
  from c p a t r pages
  show "\<exists>cnt ws. read_count ch = Count cnt \<and> collect_pages ch cnt 0 [] = Returns ws
           \<and> (\<forall>j. 0 \<le> j \<and> 10 * j < cnt \<longrightarrow>
                 (\<exists>n items. read_getActiveItems ch (10 * j) 10 = ActiveItems n items
                     \<and> 0 \<le> Int64 n \<and> Int64 n \<le> int (length items)))
           \<and> (\<forall>w \<in> set ws. address_FromBytes ch w = None)
           \<and> snd (refresh ch tv) = tv\<lparr>witnesses := fold (\<lambda>w. AList.update w True) ws []\<rparr>"
    by auto
qed

theorem refresh_all_or_nothing_witness:
  "refresh chain_page_fails tv_cached = (Fails (External (OtherError 0)), tv_cached)
   \<and> refresh chain_two tv_cached = (Returns (), tv_refreshed)
   \<and> read_getActiveItems chain_two 0 10 = ActiveItems 2 [0x0A, 0x0B]"
proof -
  have "read_getActiveItems chain_two 0 10 = ActiveItems 2 [0x0A, 0x0B]"
    by (simp add: chain_two_def)
  moreover from refresh_all_or_nothing [of chain_page_fails tv_cached]
  have "refresh chain_page_fails tv_cached = (Fails (External (OtherError 0)), tv_cached)"
    by (simp add: ex_refresh_page_fails)
  moreover from refresh_all_or_nothing [of chain_two tv_cached]
  have "refresh chain_two tv_cached = (Returns (), tv_refreshed)"
    by (simp add: ex_refresh_cached)
  ultimately show ?thesis by blast
qed

end
